theory Spec2Isabelle
  imports Complex_Main "HOL-Library.Char_ord" "HOL-Library.List_Lexorder"
begin

section \<open>Python values used by the report generators\<close>

text \<open>
  The two report generators (\<^verbatim>\<open>benchmarks/report.py\<close> and \<^verbatim>\<open>benchmarks/gen_chart.py\<close>)
  share the functions modelled here line by line; they differ only in where the benchmark
  name and the schema come from (arguments in the first, module constants in the second).

  Python exceptions are values: a function that can raise returns \<open>py_error + 'a\<close>.
\<close>

datatype py_error =
  IndexError | ValueError | StatisticsError | JSONDecodeError | KeyError | TypeError

definition py_bind :: "py_error + 'a \<Rightarrow> ('a \<Rightarrow> py_error + 'b) \<Rightarrow> py_error + 'b" where
  "py_bind m f = (case m of Inl e \<Rightarrow> Inl e | Inr v \<Rightarrow> f v)"

subsection \<open>Floats\<close>

text \<open>
  A Python float is modelled by the decimal that \<^verbatim>\<open>repr\<close> prints for it (the shortest
  decimal that reads back as the same double, which identifies the double): a sign, the
  digits as a natural number and a power of ten. Arithmetic on floats is done on the exact
  rational value of that decimal; the rounding error of double arithmetic is not modelled.
  \<^verbatim>\<open>float(r["duration_ms"])\<close> is the value of the row's field as such a float.
\<close>

record pyfloat =
  negative :: bool
  mantissa :: nat
  exponent :: int

definition float_val :: "pyfloat \<Rightarrow> rat" where
  "float_val f =
     (let m = (if 0 \<le> exponent f then of_nat (mantissa f) * 10 ^ nat (exponent f)
               else of_nat (mantissa f) / 10 ^ nat (- exponent f))
      in if negative f then - m else m)"

text \<open>\<^verbatim>\<open>round(x, nd)\<close> on a float: to \<open>nd\<close> decimals, a tie going to the even neighbour.\<close>

definition round_half_even :: "rat \<Rightarrow> int" where
  "round_half_even y =
     (let f = \<lfloor>y\<rfloor>; d = y - of_int f
      in if d < 1 / 2 then f else if 1 / 2 < d then f + 1
         else if even f then f else f + 1)"

definition py_round :: "rat \<Rightarrow> nat \<Rightarrow> rat" where
  "py_round x nd = of_int (round_half_even (x * 10 ^ nd)) / 10 ^ nd"

subsection \<open>min, max, sorted, statistics.median\<close>

text \<open>
  \<^verbatim>\<open>min\<close> and \<^verbatim>\<open>max\<close> raise ValueError on an empty sequence and return the first
  of several equal extremes; with \<^verbatim>\<open>key=\<close> the comparison is on the key.
\<close>

definition py_min_key :: "('a \<Rightarrow> rat) \<Rightarrow> 'a list \<Rightarrow> py_error + 'a" where
  "py_min_key key xs =
     (case xs of [] \<Rightarrow> Inl ValueError
      | x # rest \<Rightarrow> Inr (fold (\<lambda>y best. if key y < key best then y else best) rest x))"

definition py_max_key :: "('a \<Rightarrow> rat) \<Rightarrow> 'a list \<Rightarrow> py_error + 'a" where
  "py_max_key key xs =
     (case xs of [] \<Rightarrow> Inl ValueError
      | x # rest \<Rightarrow> Inr (fold (\<lambda>y best. if key best < key y then y else best) rest x))"

definition py_min :: "rat list \<Rightarrow> py_error + rat" where
  "py_min xs = py_min_key (\<lambda>x. x) xs"

definition py_max :: "rat list \<Rightarrow> py_error + rat" where
  "py_max xs = py_max_key (\<lambda>x. x) xs"

text \<open>\<^verbatim>\<open>xs[i]\<close> for a non-negative index: IndexError out of range.\<close>

definition py_index :: "'a list \<Rightarrow> nat \<Rightarrow> py_error + 'a" where
  "py_index xs i = (if i < length xs then Inr (xs ! i) else Inl IndexError)"

text \<open>
  \<^verbatim>\<open>statistics.median\<close>: sort, StatisticsError on no data, the middle element of an odd
  number of points, the mean of the two middle elements of an even number.
\<close>

definition median :: "rat list \<Rightarrow> py_error + rat" where
  "median data =
     (let sorted_data = sort data; n = length sorted_data
      in if n = 0 then Inl StatisticsError
         else if n mod 2 = 1 then Inr (sorted_data ! (n div 2))
         else (let i = n div 2 in Inr ((sorted_data ! (i - 1) + sorted_data ! i) / 2)))"

section \<open>Rows of bench\_summary\<close>

text \<open>
  One row as \<^verbatim>\<open>fetch_bench_data\<close> returns it: a dict with the five selected columns.
  A \<^verbatim>\<open>datetime\<close> is represented by the text its \<^verbatim>\<open>isoformat()\<close> gives; a NULL
  \<^verbatim>\<open>run_ts\<close> is \<open>None\<close>.
\<close>

datatype datetime = Datetime (isoformat: string)

record row =
  query_id :: int
  status :: string
  duration_ms :: pyfloat
  rows_returned :: int
  run_ts :: "datetime option"

text \<open>The scale factor is an integer, or the literal string \<^verbatim>\<open>"unknown"\<close> (see \<^verbatim>\<open>main\<close>).\<close>

datatype scale = SfInt int | SfStr string

section \<open>The metadata document: \<^verbatim>\<open>write_meta_json\<close>\<close>

text \<open>
  The facts \<^verbatim>\<open>fetch_metadata\<close> collects are a dict from names to strings, integers or
  \<^verbatim>\<open>None\<close>, kept here in insertion order.
\<close>

datatype jvalue = JStr string | JInt int | JNone

definition dict_get :: "(string \<times> jvalue) list \<Rightarrow> string \<Rightarrow> jvalue \<Rightarrow> jvalue" where
  "dict_get d k dflt = (case map_of d k of None \<Rightarrow> dflt | Some v \<Rightarrow> v)"

text \<open>\<^verbatim>\<open>k.replace("pg_", "")\<close>: every occurrence is removed, scanning from the left.\<close>

fun replace_pg :: "string \<Rightarrow> string" where
  "replace_pg [] = []"
| "replace_pg (c # cs) =
     (if take 3 (c # cs) = ''pg_'' then replace_pg (drop 2 cs) else c # replace_pg cs)"

record results_json =
  total_queries :: int
  ok_count :: int
  error_count :: int
  total_duration_ms :: rat
  total_duration_s :: rat
  min_duration_ms :: rat
  max_duration_ms :: rat
  median_duration_ms :: rat
  fastest_query :: "int option"
  slowest_query :: "int option"

record system_json =
  hostname :: jvalue
  os :: jvalue
  arch :: jvalue
  cpu_count :: jvalue

record meta_json =
  benchmark :: string
  schema :: string
  date :: string
  scale_factor :: scale
  run_ts :: "string option"
  postgresql :: "string \<rightharpoonup> jvalue"
  system :: system_json
  results :: results_json

text \<open>
  The entry \<^verbatim>\<open>"results"\<close> of the document, with the local variables of
  \<^verbatim>\<open>write_meta_json\<close> it is computed from. \<^verbatim>\<open>ok_durations\<close> is only tested for
  being empty; \<^verbatim>\<open>min\<close> and \<^verbatim>\<open>max\<close> with \<^verbatim>\<open>key=\<close> run over \<^verbatim>\<open>rows\<close>, and
  the three duration figures over \<^verbatim>\<open>durations\<close>.
\<close>

definition results_block :: "row list \<Rightarrow> py_error + results_json" where
  "results_block rows =
     (let durations = map (\<lambda>r. float_val (duration_ms r)) rows;
          ok_count = int (length (filter (\<lambda>r. status r = ''OK'') rows));
          err_count = int (length rows) - ok_count;
          total_ms = sum_list durations;
          ok_durations = map (\<lambda>r. float_val (duration_ms r))
                             (filter (\<lambda>r. status r = ''OK'') rows)
      in
      py_bind (if ok_durations \<noteq> []
               then map_sum id Some (py_min_key (\<lambda>r. float_val (duration_ms r)) rows)
               else Inr None) (\<lambda>fastest_q.
      py_bind (if ok_durations \<noteq> []
               then map_sum id Some (py_max_key (\<lambda>r. float_val (duration_ms r)) rows)
               else Inr None) (\<lambda>slowest_q.
      py_bind (if durations \<noteq> [] then map_sum id (\<lambda>v. py_round v 2) (py_min durations)
               else Inr 0) (\<lambda>min_ms.
      py_bind (if durations \<noteq> [] then map_sum id (\<lambda>v. py_round v 2) (py_max durations)
               else Inr 0) (\<lambda>max_ms.
      py_bind (if durations \<noteq> [] then map_sum id (\<lambda>v. py_round v 2) (median durations)
               else Inr 0) (\<lambda>median_ms.
      Inr \<lparr> total_queries = int (length rows),
            ok_count = ok_count,
            error_count = err_count,
            total_duration_ms = py_round total_ms 2,
            total_duration_s = py_round (total_ms / 1000) 1,
            min_duration_ms = min_ms,
            max_duration_ms = max_ms,
            median_duration_ms = median_ms,
            fastest_query = map_option query_id fastest_q,
            slowest_query = map_option query_id slowest_q \<rparr>))))))"

text \<open>
  The dict \<^verbatim>\<open>meta\<close> that \<^verbatim>\<open>write_meta_json\<close> builds. \<^verbatim>\<open>rows[0]\<close> raises IndexError
  on an empty list; a \<^verbatim>\<open>datetime\<close> is always true, so the test of \<^verbatim>\<open>run_ts\<close> is
  a test for \<^verbatim>\<open>None\<close>. In the \<^verbatim>\<open>"postgresql"\<close> entry a later key replaces an equal
  earlier one.
\<close>

definition meta_dict ::
  "row list \<Rightarrow> (string \<times> jvalue) list \<Rightarrow> string \<Rightarrow> string \<Rightarrow> scale \<Rightarrow> string
     \<Rightarrow> py_error + meta_json" where
  "meta_dict rows metadata schema_name bench_name sf date_str =
     py_bind (py_index rows 0) (\<lambda>r0.
     py_bind (results_block rows) (\<lambda>res.
     Inr \<lparr> benchmark = bench_name,
           schema = schema_name,
           date = date_str,
           scale_factor = sf,
           run_ts = (case row.run_ts r0 of Some ts \<Rightarrow> Some (isoformat ts) | None \<Rightarrow> None),
           postgresql =
             fold (\<lambda>(k, v) m. m(k \<mapsto> v))
               ([(''version'', dict_get metadata ''pg_version'' (JStr [])),
                 (''version_num'', dict_get metadata ''pg_version_num'' (JInt 0))] @
                map (\<lambda>(k, v). (replace_pg k, v))
                  (filter (\<lambda>(k, v). take 3 k = ''pg_'' \<and>
                                     k \<notin> {''pg_version'', ''pg_version_num''}) metadata))
               Map.empty,
           system = \<lparr> hostname = dict_get metadata ''hostname'' (JStr []),
                      os = dict_get metadata ''os'' (JStr []),
                      arch = dict_get metadata ''arch'' (JStr []),
                      cpu_count = dict_get metadata ''cpu_count'' (JInt 0) \<rparr>,
           results = res \<rparr>))"

text \<open>\<^verbatim>\<open>os.path.join\<close> of two components (posixpath).\<close>

definition path_join :: "string \<Rightarrow> string \<Rightarrow> string" where
  "path_join a b =
     (if take 1 b = ''/'' then b
      else if a = [] \<or> last a = CHR ''/'' then a @ b
      else a @ ''/'' @ b)"

text \<open>\<^verbatim>\<open>write_meta_json\<close>: the path written and the document dumped there.\<close>

definition write_meta_json ::
  "string \<Rightarrow> row list \<Rightarrow> (string \<times> jvalue) list \<Rightarrow> string \<Rightarrow> string \<Rightarrow> scale \<Rightarrow> string
     \<Rightarrow> py_error + string \<times> meta_json" where
  "write_meta_json run_dir rows metadata schema_name bench_name sf date_str =
     py_bind (meta_dict rows metadata schema_name bench_name sf date_str)
       (\<lambda>meta. Inr (path_join run_dir ''meta.json'', meta))"

section \<open>Text of numbers\<close>

text \<open>\<^verbatim>\<open>str\<close> of a Python integer: its decimal digits, with a minus sign when negative.\<close>

definition digit_char :: "nat \<Rightarrow> char" where
  "digit_char d = ''0123456789'' ! d"

fun str_nat :: "nat \<Rightarrow> string" where
  "str_nat n = (if n < 10 then [digit_char n] else str_nat (n div 10) @ [digit_char (n mod 10)])"

declare str_nat.simps [simp del]

definition str_int :: "int \<Rightarrow> string" where
  "str_int i = (if i < 0 then CHR ''-'' # str_nat (nat (- i)) else str_nat (nat i))"

text \<open>\<^verbatim>\<open>{sf}\<close> in an f-string: the digits of an integer, a string as it is.\<close>

fun str_scale :: "scale \<Rightarrow> string" where
  "str_scale (SfInt i) = str_int i"
| "str_scale (SfStr s) = s"

text \<open>
  The decimal text determines the number (the digits are read back by \<open>digits_val\<close>), so
  the candidate names \<^verbatim>\<open>{run_dir}_{i}\<close> of the allocator are pairwise different; its
  loop terminates for that reason.
\<close>

lemma digit_char_code: "d < 10 \<Longrightarrow> of_char (digit_char d) = 48 + d"
proof -
  assume "d < 10"
  then have "d \<in> {0, 1, 2, 3, 4, 5, 6, 7, 8, 9}" by auto
  then show ?thesis by (auto simp: digit_char_def)
qed

definition digits_val :: "string \<Rightarrow> nat" where
  "digits_val s = fold (\<lambda>c acc. 10 * acc + (of_char c - 48)) s 0"

lemma digits_val_str_nat: "digits_val (str_nat n) = n"
proof (induction n rule: str_nat.induct)
  case (1 n)
  show ?case
  proof (cases "n < 10")
    case True
    then show ?thesis by (simp add: str_nat.simps [of n] digits_val_def digit_char_code)
  next
    case False
    with 1 have "digits_val (str_nat (n div 10)) = n div 10" by simp
    with False show ?thesis
      by (simp add: str_nat.simps [of n] digits_val_def digit_char_code)
  qed
qed

lemma str_nat_inj: "str_nat m = str_nat n \<Longrightarrow> m = n"
  by (metis digits_val_str_nat)

section \<open>The run directory: \<^verbatim>\<open>make_run_dir\<close>\<close>

text \<open>
  The file system is the finite list of the paths that exist; \<^verbatim>\<open>os.path.exists\<close> is
  membership. The loop \<^verbatim>\<open>while os.path.exists(f"{run_dir}_{i}"): i += 1\<close> started at
  \<open>i\<close>:
\<close>

function first_free_suffix :: "string list \<Rightarrow> string \<Rightarrow> nat \<Rightarrow> nat" where
  "first_free_suffix fs run_dir i =
     (if run_dir @ ''_'' @ str_nat i \<in> set fs then first_free_suffix fs run_dir (i + 1) else i)"
  by pat_completeness auto
termination
proof (relation "measure (\<lambda>(fs, run_dir, i). card {j. i \<le> j \<and> run_dir @ ''_'' @ str_nat j \<in> set fs})")
  show "wf (measure (\<lambda>(fs, run_dir, i). card {j. i \<le> j \<and> run_dir @ ''_'' @ str_nat j \<in> set fs}))"
    by simp
next
  fix fs :: "string list" and run_dir :: string and i :: nat
  assume mem: "run_dir @ ''_'' @ str_nat i \<in> set fs"
  have inj: "inj (\<lambda>j. run_dir @ ''_'' @ str_nat j)"
    by (rule injI) (simp add: str_nat_inj)
  have fin: "finite {j. run_dir @ ''_'' @ str_nat j \<in> set fs}"
    using finite_vimageI [OF finite_set inj, of fs] by (simp add: vimage_def)
  let ?A = "{j. i + 1 \<le> j \<and> run_dir @ ''_'' @ str_nat j \<in> set fs}"
  let ?B = "{j. i \<le> j \<and> run_dir @ ''_'' @ str_nat j \<in> set fs}"
  have "i \<in> ?B" and "i \<notin> ?A" using mem by simp_all
  then have "?A \<noteq> ?B" by blast
  moreover have "?A \<subseteq> ?B" by auto
  ultimately have "?A \<subset> ?B" by blast
  moreover have "finite {j. i \<le> j \<and> run_dir @ ''_'' @ str_nat j \<in> set fs}"
    using fin by simp
  ultimately show "((fs, run_dir, i + 1), (fs, run_dir, i))
      \<in> measure (\<lambda>(fs, run_dir, i). card {j. i \<le> j \<and> run_dir @ ''_'' @ str_nat j \<in> set fs})"
    by (simp add: psubset_card_mono)
qed

declare first_free_suffix.simps [simp del]

text \<open>
  \<^verbatim>\<open>os.makedirs(p, exist_ok=True)\<close> makes \<open>p\<close> exist and accepts that it already does
  (missing parent directories, which it creates as well, are not recorded).
  \<^verbatim>\<open>make_run_dir\<close> returns the path and leaves the file system with it.
\<close>

definition makedirs :: "string list \<Rightarrow> string \<Rightarrow> string list" where
  "makedirs fs p = (if p \<in> set fs then fs else fs @ [p])"

definition make_run_dir :: "string list \<Rightarrow> string \<Rightarrow> string \<Rightarrow> scale \<Rightarrow> string \<times> string list" where
  "make_run_dir fs base_dir date_str sf =
     (let dirname = date_str @ ''_sf'' @ str_scale sf;
          run_dir = path_join base_dir dirname;
          run_dir = (if run_dir \<in> set fs
                     then run_dir @ ''_'' @ str_nat (first_free_suffix fs run_dir 2)
                     else run_dir)
      in (run_dir, makedirs fs run_dir))"

section \<open>The table: \<^verbatim>\<open>write_summary_csv\<close>\<close>

text \<open>
  \<^verbatim>\<open>csv\<close> writes a float with \<^verbatim>\<open>str\<close>, that is \<^verbatim>\<open>repr\<close>: the shortest digits
  (no trailing zeros; \<open>0\<close> for zero) and the position \<open>decpt\<close> of the decimal point relative
  to their start, then exponent notation when \<open>decpt \<le> -4\<close> or \<open>16 < decpt\<close> and
  positional notation otherwise, with \<open>.0\<close> added to a whole number. Infinities and NaN are
  not modelled.
\<close>

definition float_digits :: "pyfloat \<Rightarrow> string \<times> int" where
  "float_digits f =
     (if mantissa f = 0 then (''0'', 1)
      else (let ds = str_nat (mantissa f)
            in (rev (dropWhile (\<lambda>c. c = CHR ''0'') (rev ds)), int (length ds) + exponent f)))"

definition float_repr :: "pyfloat \<Rightarrow> string" where
  "float_repr f =
     (let (ds, decpt) = float_digits f;
          sign = (if negative f then ''-'' else [])
      in if decpt \<le> - 4 \<or> 16 < decpt
         then sign @ take 1 ds @ (if 1 < length ds then ''.'' @ drop 1 ds else []) @ ''e'' @
              (if decpt - 1 < 0 then ''-'' else ''+'') @
              (let ex = str_nat (nat \<bar>decpt - 1\<bar>) in if length ex < 2 then ''0'' @ ex else ex)
         else if decpt \<le> 0 then sign @ ''0.'' @ replicate (nat (- decpt)) (CHR ''0'') @ ds
         else if int (length ds) \<le> decpt
              then sign @ ds @ replicate (nat (decpt - int (length ds))) (CHR ''0'') @ ''.0''
         else sign @ take (nat decpt) ds @ ''.'' @ drop (nat decpt) ds)"

text \<open>The characters a number is written with.\<close>

definition number_chars :: "char set" where
  "number_chars = set ''0123456789-.e+''"

text \<open>
  The default dialect of \<^verbatim>\<open>csv.DictWriter\<close>: a field that contains the delimiter, the
  quote character or a line break is quoted, with its quotes doubled; fields are joined by
  commas and a record ends with CR LF.
\<close>

definition csv_field :: "string \<Rightarrow> string" where
  "csv_field s =
     (if \<exists>c\<in>set s. c \<in> {CHR '','', CHR 0x22, CHR 0x0D, CHR 0x0A}
      then [CHR 0x22] @ concat (map (\<lambda>c. if c = CHR 0x22 then [c, c] else [c]) s) @ [CHR 0x22]
      else s)"

fun join :: "string \<Rightarrow> string list \<Rightarrow> string" where
  "join sep [] = []"
| "join sep [x] = x"
| "join sep (x # y # ys) = x @ sep @ join sep (y # ys)"

definition csv_record :: "string list \<Rightarrow> string" where
  "csv_record cells = join '','' (map csv_field cells) @ [CHR 0x0D, CHR 0x0A]"

text \<open>
  The records \<^verbatim>\<open>write_summary_csv\<close> writes, the header first, and the file they make
  under \<^verbatim>\<open>run_dir\<close>. The identifier and the row count are integers (a NULL, which
  \<^verbatim>\<open>csv\<close> writes as an empty field, is not modelled).
\<close>

definition csv_records :: "row list \<Rightarrow> string list" where
  "csv_records rows =
     csv_record [''query_id'', ''status'', ''duration_ms'', ''rows_returned''] #
     map (\<lambda>r. csv_record [str_int (query_id r), status r, float_repr (duration_ms r),
                            str_int (rows_returned r)]) rows"

definition write_summary_csv :: "string \<Rightarrow> row list \<Rightarrow> string \<times> string" where
  "write_summary_csv run_dir rows = (path_join run_dir ''summary.csv'', concat (csv_records rows))"

section \<open>The chart: \<^verbatim>\<open>create_chart\<close>\<close>



text \<open>
  The percentile step. \<^verbatim>\<open>int(len(sorted_d) * 0.95)\<close> is a product of doubles; for fewer
  than \<^verbatim>\<open>1e14\<close> rows it equals \<open>\<lfloor>19 n / 20\<rfloor>\<close>, which is what the model computes.
  \<^verbatim>\<open>max\<close> of an empty list raises ValueError.
\<close>

definition p95_of :: "rat list \<Rightarrow> py_error + rat" where
  "p95_of durations =
     (let sorted_d = sort durations
      in if 5 \<le> length sorted_d then py_index sorted_d (19 * length sorted_d div 20)
         else py_max sorted_d)"




section \<open>The index: \<^verbatim>\<open>update_readme\<close>\<close>











section \<open>Example inputs\<close>

text \<open>
  Scenario A of the specification, a run whose extreme durations belong to failed queries,
  and a run with two successful and two failed queries of which only the second row carries
  a timestamp.
\<close>

definition scenario_A :: "row list" where
  "scenario_A =
     [\<lparr>query_id = 1, status = ''OK'', duration_ms = \<lparr>negative = False, mantissa = 1205, exponent = -1\<rparr>, rows_returned = 100, run_ts = None\<rparr>,
      \<lparr>query_id = 2, status = ''OK'', duration_ms = \<lparr>negative = False, mantissa = 95, exponent = 0\<rparr>, rows_returned = 50, run_ts = None\<rparr>,
      \<lparr>query_id = 3, status = ''ERROR'', duration_ms = \<lparr>negative = False, mantissa = 0, exponent = 0\<rparr>, rows_returned = 0, run_ts = None\<rparr>]"

definition rows_err_extremes :: "row list" where
  "rows_err_extremes =
     [\<lparr>query_id = 1, status = ''OK'', duration_ms = \<lparr>negative = False, mantissa = 50, exponent = 0\<rparr>, rows_returned = 10, run_ts = None\<rparr>,
      \<lparr>query_id = 2, status = ''ERROR'', duration_ms = \<lparr>negative = False, mantissa = 10, exponent = 0\<rparr>, rows_returned = 0, run_ts = None\<rparr>,
      \<lparr>query_id = 3, status = ''ERROR'', duration_ms = \<lparr>negative = False, mantissa = 900, exponent = 0\<rparr>, rows_returned = 0, run_ts = None\<rparr>]"

definition rows_mixed :: "row list" where
  "rows_mixed =
     [\<lparr>query_id = 1, status = ''OK'', duration_ms = \<lparr>negative = False, mantissa = 100, exponent = 0\<rparr>, rows_returned = 10, run_ts = None\<rparr>,
      \<lparr>query_id = 2, status = ''OK'', duration_ms = \<lparr>negative = False, mantissa = 300, exponent = 0\<rparr>, rows_returned = 20, run_ts = Some (Datetime ''2026-02-28T10:00:00+00:00'')\<rparr>,
      \<lparr>query_id = 3, status = ''ERROR'', duration_ms = \<lparr>negative = False, mantissa = 5, exponent = 0\<rparr>, rows_returned = 0, run_ts = None\<rparr>,
      \<lparr>query_id = 4, status = ''ERROR'', duration_ms = \<lparr>negative = False, mantissa = 7, exponent = 0\<rparr>, rows_returned = 0, run_ts = None\<rparr>]"





text \<open>A single query of \<open>0.00001\<close> ms.\<close>

definition rows_tiny :: "row list" where
  "rows_tiny =
     [\<lparr>query_id = 7, status = ''OK'',
       duration_ms = \<lparr>negative = False, mantissa = 1, exponent = - 5\<rparr>,
       rows_returned = 0, run_ts = None\<rparr>]"


section \<open>Verified properties\<close>

subsection \<open>Evaluation and the library functions\<close>

lemma floor_numeral_div:
  "\<lfloor>numeral a / numeral b :: rat\<rfloor> = numeral a div numeral b"
  using floor_divide_of_int_eq [of "numeral a" "numeral b", where ?'a = rat] by simp

lemma fold_less_Min:
  "fold (\<lambda>y best. if y < best then y else best) xs (x::rat) = Min (set (x # xs))"
proof -
  have "(\<lambda>y best. if y < best then y else best) = (min :: rat \<Rightarrow> rat \<Rightarrow> rat)"
    by (intro ext) (simp add: min_def)
  then show ?thesis by (simp only: Min.set_eq_fold)
qed

lemma fold_greater_Max:
  "fold (\<lambda>y best. if best < y then y else best) xs (x::rat) = Max (set (x # xs))"
proof -
  have "(\<lambda>y best. if best < y then y else best) = (max :: rat \<Rightarrow> rat \<Rightarrow> rat)"
    by (intro ext) (simp add: max_def)
  then show ?thesis by (simp only: Max.set_eq_fold)
qed

lemma py_min_nonempty: "xs \<noteq> [] \<Longrightarrow> py_min xs = Inr (Min (set xs))"
  by (cases xs) (simp_all add: py_min_def py_min_key_def fold_less_Min del: set_simps)

lemma py_max_nonempty: "xs \<noteq> [] \<Longrightarrow> py_max xs = Inr (Max (set xs))"
  by (cases xs) (simp_all add: py_max_def py_max_key_def fold_greater_Max del: set_simps)

lemma median_nonempty:
  "xs \<noteq> [] \<Longrightarrow>
   median xs = Inr (if even (length xs)
                    then (sort xs ! (length xs div 2 - 1) + sort xs ! (length xs div 2)) / 2
                    else sort xs ! (length xs div 2))"
proof -
  assume "xs \<noteq> []"
  then have "length (sort xs) \<noteq> 0" by simp
  then show ?thesis
    by (auto simp: median_def Let_def odd_iff_mod_2_eq_one simp del: length_0_conv)
qed

lemma py_min_key_in:
  "py_min_key key xs = Inr r \<Longrightarrow> r \<in> set xs"
proof -
  have "fold (\<lambda>y best. if key y < key best then y else best) ys y \<in> set (y # ys)" for ys y
    by (induction ys arbitrary: y) auto
  then show "py_min_key key xs = Inr r \<Longrightarrow> r \<in> set xs"
    by (cases xs) (auto simp: py_min_key_def)
qed

lemma py_min_key_total: "xs \<noteq> [] \<Longrightarrow> \<exists>r. py_min_key key xs = Inr r"
  by (cases xs) (simp_all add: py_min_key_def)

lemma py_max_key_total: "xs \<noteq> [] \<Longrightarrow> \<exists>r. py_max_key key xs = Inr r"
  by (cases xs) (simp_all add: py_max_key_def)

lemma results_block_nonempty:
  assumes "rows \<noteq> []"
  shows "\<exists>fq sq. results_block rows =
     Inr \<lparr> total_queries = int (length rows),
           ok_count = int (length (filter (\<lambda>r. status r = ''OK'') rows)),
           error_count = int (length rows) - int (length (filter (\<lambda>r. status r = ''OK'') rows)),
           total_duration_ms = py_round (sum_list (map (\<lambda>r. float_val (duration_ms r)) rows)) 2,
           total_duration_s = py_round (sum_list (map (\<lambda>r. float_val (duration_ms r)) rows) / 1000) 1,
           min_duration_ms = py_round (Min (set (map (\<lambda>r. float_val (duration_ms r)) rows))) 2,
           max_duration_ms = py_round (Max (set (map (\<lambda>r. float_val (duration_ms r)) rows))) 2,
           median_duration_ms =
             py_round (if even (length rows)
                       then (sort (map (\<lambda>r. float_val (duration_ms r)) rows) ! (length rows div 2 - 1) +
                             sort (map (\<lambda>r. float_val (duration_ms r)) rows) ! (length rows div 2)) / 2
                       else sort (map (\<lambda>r. float_val (duration_ms r)) rows) ! (length rows div 2)) 2,
           fastest_query = fq, slowest_query = sq \<rparr>"
proof -
  obtain a where a: "py_min_key (\<lambda>r. float_val (duration_ms r)) rows = Inr a"
    using py_min_key_total [OF assms] by blast
  obtain b where b: "py_max_key (\<lambda>r. float_val (duration_ms r)) rows = Inr b"
    using py_max_key_total [OF assms] by blast
  have ne: "map (\<lambda>r. float_val (duration_ms r)) rows \<noteq> []" using assms by simp
  show ?thesis
    unfolding results_block_def Let_def
    by (simp add: a b py_min_nonempty [OF ne] py_max_nonempty [OF ne] median_nonempty [OF ne]
         py_bind_def assms del: set_map)
qed

lemmas eval_defs = results_block_def py_bind_def py_min_key_def py_max_key_def py_min_def py_max_def
     median_def float_val_def py_round_def round_half_even_def Let_def floor_numeral_div py_index_def

subsection \<open>The metadata writer\<close>


lemma meta_dict_results:
  "rows \<noteq> [] \<Longrightarrow> results_block rows = Inr s \<Longrightarrow>
   \<exists>m. meta_dict rows metadata schema_name bench_name sf date_str = Inr m \<and> results m = s \<and>
       meta_json.run_ts m = map_option isoformat (row.run_ts (hd rows))"
  by (cases rows) (auto simp: meta_dict_def py_bind_def py_index_def split: option.splits)



lemma results_rows_err_extremes:
  "results_block rows_err_extremes = Inr \<lparr>total_queries = 3, ok_count = 1, error_count = 2,
          total_duration_ms = 960, total_duration_s = 1, min_duration_ms = 10,
          max_duration_ms = 900, median_duration_ms = 50, fastest_query = Some 2,
          slowest_query = Some 3\<rparr>"
  by (simp add: rows_err_extremes_def eval_defs)


text \<open>
  Claim C2 at the input \<open>{1, OK, 50.0}\<close>, \<open>{2, ERROR, 10.0}\<close>, \<open>{3, ERROR, 900.0}\<close>: the
  block names query 2 as the fastest and query 3 as the slowest, and both of these rows have
  the status ERROR. The test \<^verbatim>\<open>if ok_durations\<close> only decides between a row and
  \<^verbatim>\<open>None\<close>; the row itself is chosen among all of \<^verbatim>\<open>rows\<close>.
\<close>

theorem fastest_slowest_are_error_rows:
  "map_sum id (\<lambda>m. (fastest_query (results m), slowest_query (results m)))
     (meta_dict rows_err_extremes [] ''tpcds'' ''TPC-DS'' (SfInt 1) ''2026-02-28'') =
   Inr (Some 2, Some 3) \<and>
   map (\<lambda>r. (query_id r, status r)) rows_err_extremes = [(1, ''OK''), (2, ''ERROR''), (3, ''ERROR'')]"
proof -
  have "rows_err_extremes \<noteq> []" by (simp add: rows_err_extremes_def)
  from meta_dict_results [OF this results_rows_err_extremes]
  obtain m where "meta_dict rows_err_extremes [] ''tpcds'' ''TPC-DS'' (SfInt 1) ''2026-02-28'' = Inr m"
    and "fastest_query (results m) = Some 2" and "slowest_query (results m) = Some 3"
    by fastforce
  then show ?thesis by (simp add: rows_err_extremes_def)
qed

text \<open>The half of C2 that the code keeps: without an OK row both identifiers are null.\<close>

lemma no_ok_row_no_extremes:
  assumes "rows \<noteq> []" and "\<forall>r\<in>set rows. status r \<noteq> ''OK''"
  shows "\<exists>m. meta_dict rows metadata schema_name bench_name sf date_str = Inr m \<and>
             fastest_query (results m) = None \<and> slowest_query (results m) = None"
proof -
  have f: "filter (\<lambda>r. status r = ''OK'') rows = []" using assms(2) by (simp add: filter_empty_conv)
  have ne: "map (\<lambda>r. float_val (duration_ms r)) rows \<noteq> []" using assms(1) by simp
  have "\<exists>s. results_block rows = Inr s \<and> fastest_query s = None \<and> slowest_query s = None"
    unfolding results_block_def Let_def
    by (simp add: f py_min_nonempty [OF ne] py_max_nonempty [OF ne] median_nonempty [OF ne]
         py_bind_def assms(1) del: set_map)
  then obtain s where s: "results_block rows = Inr s" "fastest_query s = None" "slowest_query s = None"
    by blast
  from meta_dict_results [OF assms(1) s(1)] s(2,3) show ?thesis by metis
qed




text \<open>
  Claim C7. For every non-empty row sequence the document is written and
  \<open>ok_count + error_count = total_queries\<close> holds in it; and the stats block is a function of
  the rows alone: two documents built from the same rows with any two sets of environment
  facts, schemas, benchmark names, scale factors and dates carry the same block.
\<close>

theorem counts_add_up_and_stats_depend_on_rows_only:
  assumes "rows \<noteq> []"
  shows "\<exists>m m'. meta_dict rows metadata schema_name bench_name sf date_str = Inr m \<and>
     meta_dict rows metadata' schema_name' bench_name' sf' date_str' = Inr m' \<and>
     results m' = results m \<and>
     ok_count (results m) + error_count (results m) = total_queries (results m)"
proof -
  from results_block_nonempty [OF assms] obtain s where
    s: "results_block rows = Inr s" and "ok_count s + error_count s = total_queries s"
    by fastforce
  with meta_dict_results [OF assms s, of metadata schema_name bench_name sf date_str]
       meta_dict_results [OF assms s, of metadata' schema_name' bench_name' sf' date_str']
  show ?thesis by metis
qed

theorem counts_add_up_witness:
  "scenario_A \<noteq> [] \<and>
   (\<exists>m m'. meta_dict scenario_A [] ''tpcds'' ''TPC-DS'' (SfInt 1) ''2026-02-28'' = Inr m \<and>
      meta_dict scenario_A [(''hostname'', JStr ''db1'')] ''tpch'' ''TPC-H'' (SfStr ''unknown'') ''2026-03-01'' = Inr m' \<and>
      results m' = results m \<and>
      ok_count (results m) + error_count (results m) = total_queries (results m))"
proof -
  have h: "scenario_A \<noteq> []" by (simp add: scenario_A_def)
  from counts_add_up_and_stats_depend_on_rows_only [OF h] show ?thesis using h by blast
qed

text \<open>
  Claim C10. The \<open>run_ts\<close> entry of the document is the ISO text of the first row's
  timestamp: it is null exactly when the first row has none, whatever the later rows carry.
\<close>

theorem run_ts_from_first_row:
  "\<exists>m. meta_dict (r # rs) metadata schema_name bench_name sf date_str = Inr m \<and>
       meta_json.run_ts m = map_option isoformat (row.run_ts r) \<and>
       (meta_json.run_ts m = None \<longleftrightarrow> row.run_ts r = None)"
proof -
  obtain s where s: "results_block (r # rs) = Inr s"
    using results_block_nonempty [of "r # rs"] by blast
  from meta_dict_results [OF _ s, of metadata schema_name bench_name sf date_str]
  show ?thesis by auto
qed

theorem run_ts_from_first_row_witness:
  "row.run_ts (hd rows_mixed) = None \<and> row.run_ts (rows_mixed ! 1) \<noteq> None \<and>
   (\<exists>m. meta_dict rows_mixed [] ''tpcds'' ''TPC-DS'' (SfInt 1) ''2026-02-28'' = Inr m \<and>
        meta_json.run_ts m = None)"
  using run_ts_from_first_row [of "hd rows_mixed" "tl rows_mixed" "[]" "''tpcds''" "''TPC-DS''" "SfInt 1" "''2026-02-28''"]
  by (simp add: rows_mixed_def)

subsection \<open>The run directory\<close>

lemmas str_defs = str_nat.simps digit_char_def str_int_def

text \<open>
  The loop stops at the first index from \<open>i\<close> on whose candidate name does not exist.
\<close>

lemma first_free_suffix_spec:
  "i \<le> first_free_suffix fs d i \<and>
   d @ ''_'' @ str_nat (first_free_suffix fs d i) \<notin> set fs \<and>
   (\<forall>j. i \<le> j \<and> j < first_free_suffix fs d i \<longrightarrow> d @ ''_'' @ str_nat j \<in> set fs)"
proof (induction fs d i rule: first_free_suffix.induct)
  case (1 fs d i)
  show ?case
  proof (cases "d @ ''_'' @ str_nat i \<in> set fs")
    case True
    then have eq: "first_free_suffix fs d i = first_free_suffix fs d (i + 1)"
      by (simp add: first_free_suffix.simps [of fs d i])
    from 1 [OF True] have ih:
      "i + 1 \<le> first_free_suffix fs d (i + 1)"
      "d @ ''_'' @ str_nat (first_free_suffix fs d (i + 1)) \<notin> set fs"
      "\<forall>j. i + 1 \<le> j \<and> j < first_free_suffix fs d (i + 1) \<longrightarrow> d @ ''_'' @ str_nat j \<in> set fs"
      by blast+
    have "d @ ''_'' @ str_nat j \<in> set fs" if "i \<le> j" "j < first_free_suffix fs d (i + 1)" for j
    proof (cases "j = i")
      case True
      with \<open>d @ ''_'' @ str_nat i \<in> set fs\<close> show ?thesis by simp
    next
      case False
      with that have "i + 1 \<le> j" by simp
      with ih(3) that(2) show ?thesis by blast
    qed
    with ih(1,2) show ?thesis unfolding eq by auto
  next
    case False
    then have "first_free_suffix fs d i = i"
      by (simp add: first_free_suffix.simps [of fs d i])
    with False show ?thesis by auto
  qed
qed

lemma path_suffix_neq: "p @ ''_'' @ s \<noteq> p"
  by simp

text \<open>
  Claim C6. For every file system, base directory, date and scale factor,
  \<^verbatim>\<open>make_run_dir\<close> returns a path that did not exist when it was called and exists
  afterwards: the first candidate \<^verbatim>\<open><base>/<date>_sf<scale>\<close> when that is unused,
  otherwise that name with the suffix \<open>_i\<close> for the least \<open>i \<ge> 2\<close> whose name is unused; and
  a second call with the same date and scale factor, made on the file system the first call
  left, returns a path that did not exist then either, hence a different one.
\<close>

theorem make_run_dir_fresh:
  "(let cand = path_join base_dir (date_str @ ''_sf'' @ str_scale sf);
        (p, fs') = make_run_dir fs base_dir date_str sf;
        (p2, fs'') = make_run_dir fs' base_dir date_str sf
    in p \<notin> set fs \<and> p \<in> set fs' \<and>
       (cand \<notin> set fs \<longrightarrow> p = cand) \<and>
       (cand \<in> set fs \<longrightarrow>
          (\<exists>i\<ge>2. p = cand @ ''_'' @ str_nat i \<and>
                 (\<forall>j. 2 \<le> j \<and> j < i \<longrightarrow> cand @ ''_'' @ str_nat j \<in> set fs))) \<and>
       p2 \<notin> set fs' \<and> p2 \<noteq> p)"
proof -
  define cand where "cand = path_join base_dir (date_str @ ''_sf'' @ str_scale sf)"
  have fresh: "fst (make_run_dir g base_dir date_str sf) \<notin> set g" for g
    using first_free_suffix_spec [of 2 g cand]
    by (simp add: make_run_dir_def Let_def cand_def)
  have made: "fst (make_run_dir g base_dir date_str sf) \<in> set (snd (make_run_dir g base_dir date_str sf))" for g
    by (simp add: make_run_dir_def Let_def makedirs_def)
  have first: "cand \<notin> set fs \<Longrightarrow> fst (make_run_dir fs base_dir date_str sf) = cand"
    by (simp add: make_run_dir_def Let_def cand_def)
  have later: "\<exists>i\<ge>2. fst (make_run_dir fs base_dir date_str sf) = cand @ ''_'' @ str_nat i \<and>
                 (\<forall>j. 2 \<le> j \<and> j < i \<longrightarrow> cand @ ''_'' @ str_nat j \<in> set fs)"
    if "cand \<in> set fs"
    using first_free_suffix_spec [of 2 fs cand] that
    by (intro exI [of _ "first_free_suffix fs cand 2"]) (simp add: make_run_dir_def Let_def cand_def)
  obtain p fs' where r1: "make_run_dir fs base_dir date_str sf = (p, fs')" by (cases "make_run_dir fs base_dir date_str sf")
  obtain p2 fs'' where r2: "make_run_dir fs' base_dir date_str sf = (p2, fs'')" by (cases "make_run_dir fs' base_dir date_str sf")
  have "p \<notin> set fs" using fresh [of fs] r1 by simp
  moreover have "p \<in> set fs'" using made [of fs] r1 by simp
  moreover have "cand \<notin> set fs \<longrightarrow> p = cand" using first r1 by simp
  moreover have "cand \<in> set fs \<longrightarrow>
          (\<exists>i\<ge>2. p = cand @ ''_'' @ str_nat i \<and>
                 (\<forall>j. 2 \<le> j \<and> j < i \<longrightarrow> cand @ ''_'' @ str_nat j \<in> set fs))"
    using later r1 by simp
  moreover have "p2 \<notin> set fs'" using fresh [of fs'] r2 by simp
  moreover from calculation have "p2 \<noteq> p" by blast
  ultimately show ?thesis
    unfolding cand_def by (simp add: Let_def r1 r2)
qed

theorem make_run_dir_fresh_witness:
  "make_run_dir [''b/2026-02-28_sf10'', ''b/2026-02-28_sf10_2''] ''b'' ''2026-02-28'' (SfInt 10) =
     (''b/2026-02-28_sf10_3'',
      [''b/2026-02-28_sf10'', ''b/2026-02-28_sf10_2'', ''b/2026-02-28_sf10_3'']) \<and>
   fst (make_run_dir [''b/2026-02-28_sf10'', ''b/2026-02-28_sf10_2'', ''b/2026-02-28_sf10_3'']
          ''b'' ''2026-02-28'' (SfInt 10)) = ''b/2026-02-28_sf10_4''"
  using make_run_dir_fresh [where fs = "[''b/2026-02-28_sf10'', ''b/2026-02-28_sf10_2'']"
          and base_dir = "''b''" and date_str = "''2026-02-28''" and sf = "SfInt 10"]
  by (simp add: make_run_dir_def path_join_def str_defs first_free_suffix.simps makedirs_def Let_def)

subsection \<open>The chart\<close>

lemma replicate_numeral: "replicate (numeral k) x = x # replicate (pred_numeral k) x"
  by (simp add: numeral_eq_Suc)

lemma py_max_sort: "xs \<noteq> [] \<Longrightarrow> py_max (sort xs) = Inr (Max (set xs))"
proof -
  assume "xs \<noteq> []"
  then have "sort xs \<noteq> []" by (metis length_sort length_0_conv)
  from py_max_nonempty [OF this] show ?thesis by simp
qed

lemma p95_index_in_range: "0 < n \<Longrightarrow> 19 * n div 20 < (n::nat)"
  by simp

lemma p95_of_nonempty:
  assumes "durations \<noteq> []"
  shows "p95_of durations =
           Inr (if 5 \<le> length durations then sort durations ! (19 * length durations div 20)
                else Max (set durations))"
proof -
  have "19 * length durations div 20 < length durations"
    using assms p95_index_in_range [of "length durations"] by simp
  then show ?thesis
    by (simp add: p95_of_def Let_def py_index_def py_max_sort [OF assms])
qed

text \<open>
  Claim C9. For every non-empty duration list the percentile step returns a value, one of
  the durations: with five or more values the index \<open>\<lfloor>19 n / 20\<rfloor>\<close> lies inside the sorted
  list, with fewer the maximum of a non-empty list is taken.
\<close>

theorem p95_total:
  assumes "durations \<noteq> []"
  shows "(\<exists>v. p95_of durations = Inr v \<and> v \<in> set durations) \<and>
         (5 \<le> length durations \<longrightarrow> 19 * length durations div 20 < length (sort durations)) \<and>
         (length durations < 5 \<longrightarrow> py_max (sort durations) = Inr (Max (set durations)))"
proof -
  have lt: "19 * length durations div 20 < length (sort durations)"
    using assms p95_index_in_range [of "length durations"] by simp
  then have "sort durations ! (19 * length durations div 20) \<in> set (sort durations)"
    by (rule nth_mem)
  then have a: "sort durations ! (19 * length durations div 20) \<in> set durations" by simp
  have b: "Max (set durations) \<in> set durations" using assms by (intro Max_in) simp_all
  show ?thesis
    using a b lt by (simp add: p95_of_nonempty [OF assms] py_max_sort [OF assms])
qed

theorem p95_total_witness:
  "[100, 100, 100, 100, 100, 100, 5000 :: rat] \<noteq> [] \<and> p95_of [100, 100, 100, 100, 100, 100, 5000] = Inr 5000 \<and>
   p95_of [3, 1, 2] = Inr 3"
  using p95_total [of "[100, 100, 100, 100, 100, 100, 5000]"] p95_total [of "[3, 1, 2]"]
  by (simp add: p95_of_def py_index_def py_max_def py_max_key_def Let_def)







subsection \<open>The index\<close>








subsection \<open>The table\<close>

text \<open>
  The text of a natural number consists of digits, and its length is the number of decimal
  digits: \<open>n\<close> lies below ten to the power of the length, and a positive \<open>n\<close> does not lie below ten to the power of the length less one.
\<close>

lemma digit_char_digit: "d < 10 \<Longrightarrow> digit_char d \<in> set ''0123456789''"
proof -
  assume "d < 10"
  then have "d \<in> {0, 1, 2, 3, 4, 5, 6, 7, 8, 9}" by auto
  then show ?thesis by (auto simp: digit_char_def)
qed

lemma str_nat_digits: "set (str_nat n) \<subseteq> set ''0123456789''"
proof (induction n rule: str_nat.induct)
  case (1 n)
  show ?case
  proof (cases "n < 10")
    case True
    with digit_char_digit [of n] show ?thesis by (simp add: str_nat.simps [of n])
  next
    case False
    with 1 have "set (str_nat (n div 10)) \<subseteq> set ''0123456789''" by simp
    moreover have "digit_char (n mod 10) \<in> set ''0123456789''" by (rule digit_char_digit) simp
    ultimately show ?thesis using False by (simp add: str_nat.simps [of n])
  qed
qed

lemma str_nat_nonempty: "str_nat n \<noteq> []"
  by (simp add: str_nat.simps [of n])

lemma str_nat_length_upper: "n < 10 ^ length (str_nat n)"
proof (induction n rule: str_nat.induct)
  case (1 n)
  show ?case
  proof (cases "n < 10")
    case True
    then show ?thesis by (simp add: str_nat.simps [of n])
  next
    case False
    with 1 have "n div 10 < 10 ^ length (str_nat (n div 10))" by simp
    then have "n < 10 * 10 ^ length (str_nat (n div 10))" by simp
    with False show ?thesis by (simp add: str_nat.simps [of n])
  qed
qed

lemma str_nat_length_lower: "n \<noteq> 0 \<Longrightarrow> 10 ^ (length (str_nat n) - 1) \<le> n"
proof (induction n rule: str_nat.induct)
  case (1 n)
  show ?case
  proof (cases "n < 10")
    case True
    with 1(2) show ?thesis by (simp add: str_nat.simps [of n])
  next
    case False
    then have nz: "n div 10 \<noteq> 0" by simp
    from 1(1) [OF False nz] have ih: "10 ^ (length (str_nat (n div 10)) - 1) \<le> n div 10" .
    have "0 < length (str_nat (n div 10))" using str_nat_nonempty [of "n div 10"] by simp
    then have "(10::nat) ^ length (str_nat (n div 10)) = 10 * 10 ^ (length (str_nat (n div 10)) - 1)"
      by (cases "length (str_nat (n div 10))") simp_all
    also have "\<dots> \<le> 10 * (n div 10)" using ih by simp
    also have "\<dots> \<le> n" by simp
    finally show ?thesis using False by (simp add: str_nat.simps [of n])
  qed
qed

text \<open>
  The position of the decimal point is the order of magnitude of the value, so the test
  for exponent notation is a test on the size of the float.
\<close>

lemma abs_float_val: "\<bar>float_val f\<bar> = of_nat (mantissa f) * 10 powi exponent f"
proof (cases "0 \<le> exponent f")
  case True
  then have "(10::rat) powi exponent f = 10 ^ nat (exponent f)" by (simp add: power_int_def)
  with True show ?thesis by (simp add: float_val_def Let_def abs_mult)
next
  case False
  then have "(10::rat) powi exponent f = 1 / 10 ^ nat (- exponent f)"
    by (simp add: power_int_def power_one_over)
  with False show ?thesis by (simp add: float_val_def Let_def abs_mult)
qed

lemma float_val_zero_iff: "float_val f = 0 \<longleftrightarrow> mantissa f = 0"
  by (simp add: float_val_def Let_def)

lemma float_magnitude:
  assumes "mantissa f \<noteq> 0"
  shows "10 powi (snd (float_digits f) - 1) \<le> \<bar>float_val f\<bar>"
    and "\<bar>float_val f\<bar> < 10 powi snd (float_digits f)"
proof -
  let ?m = "mantissa f" and ?L = "length (str_nat (mantissa f))" and ?e = "exponent f"
  have decpt: "snd (float_digits f) = int ?L + ?e"
    using assms by (simp add: float_digits_def Let_def)
  have pos: "(0::rat) < 10 powi ?e" by simp
  have L1: "0 < ?L" using str_nat_nonempty [of ?m] by simp
  have "(10::rat) ^ (?L - 1) \<le> of_nat ?m"
    using str_nat_length_lower [OF assms] by (metis of_nat_le_iff of_nat_numeral of_nat_power)
  moreover have "(10::rat) powi (int ?L - 1) = 10 ^ (?L - 1)"
    using L1 by (simp add: power_int_def nat_diff_distrib')
  ultimately have "(10::rat) powi (int ?L - 1) \<le> of_nat ?m" by simp
  then have "(10::rat) powi (int ?L - 1) * 10 powi ?e \<le> of_nat ?m * 10 powi ?e"
    using pos by (simp add: mult_right_mono)
  moreover have "(10::rat) powi (int ?L - 1) * 10 powi ?e = 10 powi (int ?L + ?e - 1)"
    using power_int_add [of "10::rat" "int ?L - 1" ?e] by (simp add: algebra_simps)
  ultimately show "10 powi (snd (float_digits f) - 1) \<le> \<bar>float_val f\<bar>"
    by (simp add: decpt abs_float_val)
  have "of_nat ?m < (10::rat) ^ ?L"
    using str_nat_length_upper [of ?m] by (metis of_nat_less_iff of_nat_numeral of_nat_power)
  then have "of_nat ?m * 10 powi ?e < (10::rat) ^ ?L * 10 powi ?e"
    using pos by (simp add: mult_strict_right_mono)
  moreover have "(10::rat) ^ ?L * 10 powi ?e = 10 powi (int ?L + ?e)"
    using power_int_add [of "10::rat" "int ?L" ?e] by simp
  ultimately show "\<bar>float_val f\<bar> < 10 powi snd (float_digits f)"
    by (simp add: decpt abs_float_val)
qed

lemma exponent_notation_range:
  "(snd (float_digits f) \<le> - 4 \<or> 16 < snd (float_digits f)) \<longleftrightarrow>
   float_val f \<noteq> 0 \<and> (\<bar>float_val f\<bar> < 1 / 10 ^ 4 \<or> 10 ^ 16 \<le> \<bar>float_val f\<bar>)"
proof (cases "mantissa f = 0")
  case True
  then show ?thesis by (simp add: float_digits_def float_val_zero_iff)
next
  case False
  let ?d = "snd (float_digits f)" and ?v = "\<bar>float_val f\<bar>"
  note lo = float_magnitude(1) [OF False] and hi = float_magnitude(2) [OF False]
  have p4: "(10::rat) powi (- 4) = 1 / 10 ^ 4" by (simp add: power_int_minus_divide)
  have p16: "(10::rat) powi 16 = 10 ^ 16" by simp
  have a: "?v < 1 / 10 ^ 4" if "?d \<le> - 4"
  proof -
    have "(10::rat) powi ?d \<le> 10 powi (- 4)" using that by (intro power_int_increasing) simp_all
    with hi show ?thesis unfolding p4 by linarith
  qed
  have b: "?d \<le> - 4" if "?v < 1 / 10 ^ 4"
  proof (rule ccontr)
    assume "\<not> ?d \<le> - 4"
    then have "(10::rat) powi (- 4) \<le> 10 powi (?d - 1)" by (intro power_int_increasing) simp_all
    with lo that show False unfolding p4 by linarith
  qed
  have c: "10 ^ 16 \<le> ?v" if "16 < ?d"
  proof -
    have "(10::rat) powi 16 \<le> 10 powi (?d - 1)" using that by (intro power_int_increasing) simp_all
    with lo show ?thesis unfolding p16 by linarith
  qed
  have d: "16 < ?d" if "10 ^ 16 \<le> ?v"
  proof (rule ccontr)
    assume "\<not> 16 < ?d"
    then have "(10::rat) powi ?d \<le> 10 powi 16" by (intro power_int_increasing) simp_all
    with hi that show False unfolding p16 by linarith
  qed
  have "float_val f \<noteq> 0" using False by (simp add: float_val_zero_iff)
  with a b c d show ?thesis by blast
qed

text \<open>
  The characters of the text of a float: digits, a minus sign and one point, and in
  exponent notation also \<open>e\<close> and \<open>+\<close>; none of them makes the writer quote the field.
\<close>

lemma float_digits_digits: "set (fst (float_digits f)) \<subseteq> set ''0123456789''"
proof (cases "mantissa f = 0")
  case True
  then show ?thesis by (simp add: float_digits_def)
next
  case False
  have "set (rev (dropWhile (\<lambda>c. c = CHR ''0'') (rev (str_nat (mantissa f)))))
          \<subseteq> set (str_nat (mantissa f))"
    using set_dropWhileD [of _ "\<lambda>c. c = CHR ''0''" "rev (str_nat (mantissa f))"] by auto
  with str_nat_digits [of "mantissa f"] False show ?thesis
    by (simp add: float_digits_def Let_def)
qed

lemma float_repr_chars:
  assumes D: "set ''0123456789'' \<subseteq> D" "CHR ''-'' \<in> D" "CHR ''.'' \<in> D"
    and E: "snd (float_digits f) \<le> - 4 \<or> 16 < snd (float_digits f) \<Longrightarrow> CHR ''e'' \<in> D \<and> CHR ''+'' \<in> D"
  shows "set (float_repr f) \<subseteq> D"
proof -
  obtain ds decpt where fd: "float_digits f = (ds, decpt)" by (cases "float_digits f")
  with float_digits_digits [of f] have "set ds \<subseteq> set ''0123456789''" by simp
  then have ds: "set ds \<subseteq> D" using D(1) by (rule subset_trans)
  have tk: "set (take n ds) \<subseteq> D" for n
    using ds set_take_subset [of n ds] by blast
  have dr: "set (drop n ds) \<subseteq> D" for n
    using ds set_drop_subset [of n ds] by blast
  have ex: "set (str_nat n) \<subseteq> D" for n using str_nat_digits [of n] D(1) by blast
  have zero: "CHR ''0'' \<in> D" using D(1) by auto
  have sign: "set (if negative f then ''-'' else []) \<subseteq> D" using D(2) by auto
  have dot: "set ''.'' \<subseteq> D" using D(3) by simp
  have rep: "set (replicate n (CHR ''0'')) \<subseteq> D" for n using zero by auto
  show ?thesis
  proof (cases "decpt \<le> - 4 \<or> 16 < decpt")
    case True
    with E fd have e: "CHR ''e'' \<in> D" "CHR ''+'' \<in> D" by simp_all
    have p3: "set (if 1 < length ds then ''.'' @ drop 1 ds else []) \<subseteq> D"
      using D(3) dr [of 1] by auto
    have p4: "set ''e'' \<subseteq> D" using e(1) by simp
    have p5: "set (if decpt - 1 < 0 then ''-'' else ''+'') \<subseteq> D" using e(2) D(2) by auto
    have p6: "set (if length (str_nat (nat \<bar>decpt - 1\<bar>)) < 2 then ''0'' @ str_nat (nat \<bar>decpt - 1\<bar>)
         else str_nat (nat \<bar>decpt - 1\<bar>)) \<subseteq> D"
      using zero ex [of "nat \<bar>decpt - 1\<bar>"] by auto
    have "float_repr f =
        (if negative f then ''-'' else []) @ take 1 ds @
        (if 1 < length ds then ''.'' @ drop 1 ds else []) @ ''e'' @
        (if decpt - 1 < 0 then ''-'' else ''+'') @
        (if length (str_nat (nat \<bar>decpt - 1\<bar>)) < 2 then ''0'' @ str_nat (nat \<bar>decpt - 1\<bar>)
         else str_nat (nat \<bar>decpt - 1\<bar>))"
      using True by (simp add: float_repr_def fd Let_def)
    then show ?thesis
      by (simp only: set_append le_sup_iff sign tk p3 p4 p5 p6 simp_thms)
  next
    case False
    show ?thesis
    proof (cases "decpt \<le> 0")
      case True
      with False have "float_repr f =
          (if negative f then ''-'' else []) @ ''0.'' @ replicate (nat (- decpt)) (CHR ''0'') @ ds"
        by (simp add: float_repr_def fd Let_def)
      moreover have "set ''0.'' \<subseteq> D" using zero D(3) by simp
      ultimately show ?thesis
        by (simp only: set_append le_sup_iff sign rep ds simp_thms)
    next
      case pos: False
      show ?thesis
      proof (cases "int (length ds) \<le> decpt")
        case True
        with False pos have "float_repr f =
            (if negative f then ''-'' else []) @ ds @
            replicate (nat (decpt - int (length ds))) (CHR ''0'') @ ''.0''"
          by (simp add: float_repr_def fd Let_def)
        moreover have "set ''.0'' \<subseteq> D" using zero D(3) by simp
        ultimately show ?thesis
          by (simp only: set_append le_sup_iff sign rep ds simp_thms)
      next
        case mid: False
        with False pos have "float_repr f =
            (if negative f then ''-'' else []) @ take (nat decpt) ds @ ''.'' @ drop (nat decpt) ds"
          by (simp add: float_repr_def fd Let_def)
        then show ?thesis
          by (simp only: set_append le_sup_iff sign tk dr dot simp_thms)
      qed
    qed
  qed
qed

lemma float_repr_e_iff:
  "CHR ''e'' \<in> set (float_repr f) \<longleftrightarrow> snd (float_digits f) \<le> - 4 \<or> 16 < snd (float_digits f)"
proof (cases "snd (float_digits f) \<le> - 4 \<or> 16 < snd (float_digits f)")
  case True
  obtain ds decpt where fd: "float_digits f = (ds, decpt)" by (cases "float_digits f")
  with True show ?thesis by (simp add: float_repr_def Let_def)
next
  case False
  have "set (float_repr f) \<subseteq> set ''0123456789-.''"
  proof (rule float_repr_chars)
    show "set ''0123456789'' \<subseteq> set ''0123456789-.''" by simp
    show "CHR ''-'' \<in> set ''0123456789-.''" by simp
    show "CHR ''.'' \<in> set ''0123456789-.''" by simp
    show "CHR ''e'' \<in> set ''0123456789-.'' \<and> CHR ''+'' \<in> set ''0123456789-.''"
      if "snd (float_digits f) \<le> - 4 \<or> 16 < snd (float_digits f)"
      using that False by blast
  qed
  moreover have "CHR ''e'' \<notin> set ''0123456789-.''" by simp
  ultimately have "CHR ''e'' \<notin> set (float_repr f)" by blast
  with False show ?thesis by simp
qed

lemma number_chars_plain:
  "CHR '','' \<notin> number_chars" "CHR 0x22 \<notin> number_chars"
  "CHR 0x0D \<notin> number_chars" "CHR 0x0A \<notin> number_chars"
  by (simp_all add: number_chars_def)

lemma float_repr_number_chars: "set (float_repr f) \<subseteq> number_chars"
proof (rule float_repr_chars)
  show "set ''0123456789'' \<subseteq> number_chars" by (simp add: number_chars_def)
  show "CHR ''-'' \<in> number_chars" by (simp add: number_chars_def)
  show "CHR ''.'' \<in> number_chars" by (simp add: number_chars_def)
  show "CHR ''e'' \<in> number_chars \<and> CHR ''+'' \<in> number_chars" by (simp add: number_chars_def)
qed

lemma str_int_number_chars: "set (str_int i) \<subseteq> number_chars"
proof -
  have d: "set ''0123456789'' \<subseteq> number_chars" by (simp add: number_chars_def)
  have m: "CHR ''-'' \<in> number_chars" by (simp add: number_chars_def)
  have n: "set (str_nat k) \<subseteq> number_chars" for k
    using str_nat_digits [of k] d by (rule subset_trans)
  show ?thesis
  proof (cases "i < 0")
    case True
    then have "str_int i = CHR ''-'' # str_nat (nat (- i))" by (simp add: str_int_def)
    with m n [of "nat (- i)"] show ?thesis by simp
  next
    case False
    then have "str_int i = str_nat (nat i)" by (simp add: str_int_def)
    with n [of "nat i"] show ?thesis by simp
  qed
qed

lemma csv_field_number: "set s \<subseteq> number_chars \<Longrightarrow> csv_field s = s"
proof -
  assume "set s \<subseteq> number_chars"
  with number_chars_plain have "\<not> (\<exists>c\<in>set s. c \<in> {CHR '','', CHR 0x22, CHR 0x0D, CHR 0x0A})"
    by blast
  then show ?thesis unfolding csv_field_def by (simp only: if_False)
qed

lemma csv_field_str_int: "csv_field (str_int i) = str_int i"
  using str_int_number_chars by (rule csv_field_number)

lemma csv_field_float_repr: "csv_field (float_repr f) = float_repr f"
  using float_repr_number_chars by (rule csv_field_number)

lemma csv_header:
  "csv_record [''query_id'', ''status'', ''duration_ms'', ''rows_returned''] =
     ''query_id,status,duration_ms,rows_returned'' @ [CHR 0x0D, CHR 0x0A]"
  by (simp add: csv_record_def csv_field_def)

text \<open>
  Claim C8, as amended. For every row sequence, the empty one included,
  \<^verbatim>\<open>write_summary_csv\<close> writes \<^verbatim>\<open>summary.csv\<close> with the header record followed by
  exactly one record per row, in the order of the rows and with the fields query\_id,
  status, duration\_ms, rows\_returned in that order (the numbers unquoted); for no rows it
  writes the header only. A duration is written in exponent notation exactly when it is
  not zero and its magnitude is below \<^verbatim>\<open>1e-4\<close> or at least \<^verbatim>\<open>1e16\<close>, and in
  positional decimal notation otherwise.
\<close>

theorem csv_export:
  "write_summary_csv run_dir rows =
     (path_join run_dir ''summary.csv'', concat (csv_records rows)) \<and>
   length (csv_records rows) = 1 + length rows \<and>
   csv_records rows ! 0 = ''query_id,status,duration_ms,rows_returned'' @ [CHR 0x0D, CHR 0x0A] \<and>
   (\<forall>i<length rows.
      csv_records rows ! (i + 1) =
        str_int (query_id (rows ! i)) @ '','' @ csv_field (status (rows ! i)) @ '','' @
        float_repr (duration_ms (rows ! i)) @ '','' @ str_int (rows_returned (rows ! i)) @
        [CHR 0x0D, CHR 0x0A]) \<and>
   (\<forall>r\<in>set rows.
      CHR ''e'' \<in> set (float_repr (duration_ms r)) \<longleftrightarrow>
        float_val (duration_ms r) \<noteq> 0 \<and>
        (\<bar>float_val (duration_ms r)\<bar> < 1 / 10 ^ 4 \<or> 10 ^ 16 \<le> \<bar>float_val (duration_ms r)\<bar>)) \<and>
   csv_records [] = [''query_id,status,duration_ms,rows_returned'' @ [CHR 0x0D, CHR 0x0A]]"
proof (intro conjI allI impI ballI)
  show "write_summary_csv run_dir rows =
     (path_join run_dir ''summary.csv'', concat (csv_records rows))"
    by (simp add: write_summary_csv_def)
  show "length (csv_records rows) = 1 + length rows"
    by (simp add: csv_records_def)
  show "csv_records rows ! 0 = ''query_id,status,duration_ms,rows_returned'' @ [CHR 0x0D, CHR 0x0A]"
    unfolding csv_records_def by (simp only: nth_Cons_0 csv_header)
  show "csv_records [] = [''query_id,status,duration_ms,rows_returned'' @ [CHR 0x0D, CHR 0x0A]]"
    unfolding csv_records_def by (simp only: list.map csv_header)
next
  fix i assume "i < length rows"
  then show "csv_records rows ! (i + 1) =
        str_int (query_id (rows ! i)) @ '','' @ csv_field (status (rows ! i)) @ '','' @
        float_repr (duration_ms (rows ! i)) @ '','' @ str_int (rows_returned (rows ! i)) @
        [CHR 0x0D, CHR 0x0A]"
    by (simp add: csv_records_def csv_record_def csv_field_str_int csv_field_float_repr)
next
  fix r assume "r \<in> set rows"
  show "CHR ''e'' \<in> set (float_repr (duration_ms r)) \<longleftrightarrow>
        float_val (duration_ms r) \<noteq> 0 \<and>
        (\<bar>float_val (duration_ms r)\<bar> < 1 / 10 ^ 4 \<or> 10 ^ 16 \<le> \<bar>float_val (duration_ms r)\<bar>)"
    unfolding float_repr_e_iff by (rule exponent_notation_range)
qed

lemma csv_field_code:
  "csv_field s =
     (if list_ex (\<lambda>c. c = CHR '','' \<or> c = CHR 0x22 \<or> c = CHR 0x0D \<or> c = CHR 0x0A) s
      then [CHR 0x22] @ concat (map (\<lambda>c. if c = CHR 0x22 then [c, c] else [c]) s) @ [CHR 0x22]
      else s)"
  by (simp add: csv_field_def list_ex_iff)

lemmas csv_eval = write_summary_csv_def csv_records_def csv_record_def csv_field_code
  float_repr_def float_digits_def str_defs Let_def path_join_def replicate_numeral

text \<open>
  Claim C8 as stated fails: a duration of \<open>0.00001\<close> ms is written as \<^verbatim>\<open>1e-05\<close>.
\<close>

theorem tiny_duration_in_exponent_notation:
  "write_summary_csv ''run'' rows_tiny =
     (''run/summary.csv'',
      ''query_id,status,duration_ms,rows_returned'' @ [CHR 0x0D, CHR 0x0A] @
      ''7,OK,1e-05,0'' @ [CHR 0x0D, CHR 0x0A])"
  by (simp add: rows_tiny_def csv_eval)

text \<open>The table of scenario A.\<close>

theorem csv_export_witness:
  "write_summary_csv ''run'' scenario_A =
     (''run/summary.csv'',
      ''query_id,status,duration_ms,rows_returned'' @ [CHR 0x0D, CHR 0x0A] @
      ''1,OK,120.5,100'' @ [CHR 0x0D, CHR 0x0A] @
      ''2,OK,95.0,50'' @ [CHR 0x0D, CHR 0x0A] @
      ''3,ERROR,0.0,0'' @ [CHR 0x0D, CHR 0x0A]) \<and>
   length (csv_records scenario_A) = 4"
  using csv_export [of "''run''" scenario_A]
  by (simp add: scenario_A_def csv_eval)

end
